theory Spec2Isabelle
  imports Complex_Main
begin

section \<open>Common conventions\<close>

text \<open>
  The development embeds the signal bus (\<^verbatim>\<open>bus.ts\<close>), the in-memory transport, the
  sequential executor, the no-op store and the three clocks (interval, test, bridge) of
  the Cadence library.

  \<^item> Millisecond quantities (\<^verbatim>\<open>Date.now()\<close>, \<^verbatim>\<open>intervalMs\<close>, drifts, accumulators) are
    integers; \<^verbatim>\<open>Math.floor(a / b)\<close> is \<open>a div b\<close>, which agrees with JavaScript for
    \<open>b \<noteq> 0\<close>. JavaScript's \<^verbatim>\<open>Infinity\<close> and \<^verbatim>\<open>NaN\<close> (division by a zero interval) are not
    represented, so nothing is stated for a zero interval. Averages and
    \<^verbatim>\<open>performance.now()\<close> readings are rationals.
  \<^item> A thrown value or a rejected promise is the result \<open>Thrown e\<close>; normal completion of
    an awaited call is \<open>Ok v\<close>.
  \<^item> User callbacks (handlers, middleware, store, transport) act on an environment of
    type \<open>'w\<close> that is threaded through every call in program order. Callbacks are
    assumed not to call back into the object that invokes them. Readings of the host
    clocks (\<^verbatim>\<open>Date.now\<close>, \<^verbatim>\<open>performance.now\<close>) are functions of the environment.
  \<^item> The notification callbacks \<^verbatim>\<open>onError\<close> and \<^verbatim>\<open>onDriftWarning\<close> are taken to return
    normally; their effect on the environment is arbitrary.
\<close>

datatype error = Error string

datatype 'a outcome = Ok 'a | Thrown error

section \<open>Clock types (\<^verbatim>\<open>clock/types.ts\<close>)\<close>

datatype reason = Interval | Bridge | Manual | Catchup

record tick =
  ts :: int
  seq :: nat
  reason :: reason
  drift :: "int option"

record tickStats =
  tickCount :: nat
  droppedTicks :: nat
  errors :: nat
  avgHandlerMs :: rat
  avgDriftMs :: rat
  lastTickAt :: int
  maxHandlerMs :: rat

text \<open>A tick handler: \<open>None\<close> when it returns (or its promise resolves), \<open>Some e\<close> when it
  throws (or its promise rejects).\<close>

type_synonym 'w tickHandler = "tick \<Rightarrow> 'w \<Rightarrow> error option \<times> 'w"

section \<open>Test clock (\<^verbatim>\<open>clock/test-clock.ts\<close>)\<close>

text \<open>The closure variables of \<^verbatim>\<open>createTestClock\<close>. \<open>tc_perfNow\<close> is the host's
  \<^verbatim>\<open>performance.now\<close>, read from the environment.\<close>

record 'w testClock =
  tc_intervalMs :: int
  tc_perfNow :: "'w \<Rightarrow> rat"
  tc_handler :: "'w tickHandler option"
  tc_running :: bool
  tc_seq :: nat
  tc_virtualTime :: int
  tc_accumulator :: int
  tc_tickCount :: nat
  tc_errors :: nat
  tc_totalHandlerMs :: rat
  tc_lastTickAt :: int
  tc_maxHandlerMs :: rat

definition createTestClock :: "int \<Rightarrow> ('w \<Rightarrow> rat) \<Rightarrow> 'w testClock" where
  "createTestClock intervalMs perf =
     \<lparr> tc_intervalMs = intervalMs, tc_perfNow = perf, tc_handler = None,
       tc_running = False, tc_seq = 0, tc_virtualTime = 0, tc_accumulator = 0,
       tc_tickCount = 0, tc_errors = 0, tc_totalHandlerMs = 0, tc_lastTickAt = 0,
       tc_maxHandlerMs = 0 \<rparr>"

definition test_resetStats :: "'w testClock \<Rightarrow> 'w testClock" where
  "test_resetStats c =
     c\<lparr> tc_tickCount := 0, tc_errors := 0, tc_totalHandlerMs := 0, tc_lastTickAt := 0,
        tc_maxHandlerMs := 0 \<rparr>"

definition test_fireSingleTick ::
  "reason \<Rightarrow> 'w testClock \<Rightarrow> 'w \<Rightarrow> unit outcome \<times> 'w testClock \<times> 'w" where
  "test_fireSingleTick r c w =
     (case tc_handler c of
        None \<Rightarrow> (Ok (), c, w)
      | Some h \<Rightarrow>
          (let t = \<lparr> ts = tc_virtualTime c, seq = tc_seq c, reason = r, drift = None \<rparr>;
               c1 = c\<lparr> tc_seq := tc_seq c + 1, tc_tickCount := tc_tickCount c + 1,
                       tc_lastTickAt := tc_virtualTime c \<rparr>;
               start = tc_perfNow c w
           in case h t w of
                (Some e, w') \<Rightarrow> (Thrown e, c1\<lparr> tc_errors := tc_errors c1 + 1 \<rparr>, w')
              | (None, w') \<Rightarrow>
                  (let elapsed = tc_perfNow c w' - start;
                       c2 = c1\<lparr> tc_totalHandlerMs := tc_totalHandlerMs c1 + elapsed \<rparr>;
                       c3 = (if elapsed > tc_maxHandlerMs c2
                             then c2\<lparr> tc_maxHandlerMs := elapsed \<rparr> else c2)
                   in (Ok (), c3, w'))))"

text \<open>The loop shared by \<^verbatim>\<open>tick\<close> and \<^verbatim>\<open>advanceBy\<close>:
  \<^verbatim>\<open>for (i = 0; i < n; i++) { virtualTime += intervalMs; await fireSingleTick("manual"); }\<close>.
  A rejection leaves the loop.\<close>

fun test_fireLoop :: "nat \<Rightarrow> 'w testClock \<Rightarrow> 'w \<Rightarrow> unit outcome \<times> 'w testClock \<times> 'w" where
  "test_fireLoop 0 c w = (Ok (), c, w)"
| "test_fireLoop (Suc n) c w =
     (case test_fireSingleTick Manual
             (c\<lparr> tc_virtualTime := tc_virtualTime c + tc_intervalMs c \<rparr>) w of
        (Thrown e, c', w') \<Rightarrow> (Thrown e, c', w')
      | (Ok u, c', w') \<Rightarrow> test_fireLoop n c' w')"

definition test_start ::
  "'w tickHandler \<Rightarrow> 'w testClock \<Rightarrow> 'w \<Rightarrow> unit outcome \<times> 'w testClock \<times> 'w" where
  "test_start h c w =
     (if tc_running c then (Thrown (Error ''Clock already running''), c, w)
      else (Ok (), c\<lparr> tc_handler := Some h, tc_running := True \<rparr>, w))"

definition test_stop :: "'w testClock \<Rightarrow> 'w \<Rightarrow> unit outcome \<times> 'w testClock \<times> 'w" where
  "test_stop c w =
     (Ok (), c\<lparr> tc_running := False, tc_handler := None, tc_accumulator := 0 \<rparr>, w)"


definition test_stats :: "'w testClock \<Rightarrow> tickStats" where
  "test_stats c =
     \<lparr> tickCount = tc_tickCount c, droppedTicks = 0, errors = tc_errors c,
       avgHandlerMs = (if tc_tickCount c > 0
                       then tc_totalHandlerMs c / of_nat (tc_tickCount c) else 0),
       avgDriftMs = 0, lastTickAt = tc_lastTickAt c, maxHandlerMs = tc_maxHandlerMs c \<rparr>"

text \<open>\<^verbatim>\<open>tick(count = 1)\<close>: the loop runs \<open>count\<close> times, not at all for \<open>count \<le> 0\<close>.\<close>

definition test_tick :: "int \<Rightarrow> 'w testClock \<Rightarrow> 'w \<Rightarrow> unit outcome \<times> 'w testClock \<times> 'w" where
  "test_tick n c w =
     (if \<not> tc_running c then (Thrown (Error ''Clock not running''), c, w)
      else test_fireLoop (nat n) c w)"

definition test_advanceBy ::
  "int \<Rightarrow> 'w testClock \<Rightarrow> 'w \<Rightarrow> unit outcome \<times> 'w testClock \<times> 'w" where
  "test_advanceBy ms c w =
     (if \<not> tc_running c then (Thrown (Error ''Clock not running''), c, w)
      else
        (let acc = tc_accumulator c + ms;
             ticksToFire = acc div tc_intervalMs c;
             c1 = c\<lparr> tc_accumulator := acc - ticksToFire * tc_intervalMs c \<rparr>
         in test_fireLoop (nat ticksToFire) c1 w))"

definition test_flush :: "'w testClock \<Rightarrow> 'w \<Rightarrow> unit outcome \<times> 'w testClock \<times> 'w" where
  "test_flush c w =
     (if \<not> tc_running c then (Thrown (Error ''Clock not running''), c, w)
      else if tc_accumulator c > 0
      then test_fireSingleTick Manual
             (c\<lparr> tc_virtualTime := tc_virtualTime c + tc_accumulator c,
                  tc_accumulator := 0 \<rparr>) w
      else (Ok (), c, w))"

definition test_reset :: "'w testClock \<Rightarrow> 'w \<Rightarrow> unit outcome \<times> 'w testClock \<times> 'w" where
  "test_reset c w =
     (Ok (), test_resetStats (c\<lparr> tc_virtualTime := 0, tc_seq := 0, tc_accumulator := 0 \<rparr>), w)"


text \<open>The public operations of the test clock as data, and a client program as a list of
  calls, each awaited before the next; the outcomes of the calls are collected.\<close>

datatype 'w testCall =
    TStart "'w tickHandler"
  | TStop
  | TTick int
  | TAdvanceBy int
  | TFlush
  | TReset

fun test_call :: "'w testCall \<Rightarrow> 'w testClock \<Rightarrow> 'w \<Rightarrow> unit outcome \<times> 'w testClock \<times> 'w" where
  "test_call (TStart h) c w = test_start h c w"
| "test_call TStop c w = test_stop c w"
| "test_call (TTick n) c w = test_tick n c w"
| "test_call (TAdvanceBy ms) c w = test_advanceBy ms c w"
| "test_call TFlush c w = test_flush c w"
| "test_call TReset c w = test_reset c w"


fun test_calls :: "'w testCall list \<Rightarrow> 'w testClock \<Rightarrow> 'w \<Rightarrow> 'w testClock \<times> 'w" where
  "test_calls [] c w = (c, w)"
| "test_calls (x # xs) c w =
     (case test_call x c w of (r, c', w') \<Rightarrow> test_calls xs c' w')"

section \<open>Bridge clock (\<^verbatim>\<open>clock/bridge.ts\<close>)\<close>

text \<open>What a call of the handler gives back to \<^verbatim>\<open>push\<close>: it throws synchronously, it returns
  a thenable (settled later), or it returns anything else.\<close>

datatype handlerResult = SyncThrow error | ReturnsPromise | Returns

type_synonym 'w bridgeHandler = "tick \<Rightarrow> 'w \<Rightarrow> handlerResult \<times> 'w"

record 'w bridgeClock =
  bc_dateNow :: "'w \<Rightarrow> int"
  bc_handler :: "'w bridgeHandler option"
  bc_running :: bool
  bc_seq :: nat
  bc_tickCount :: nat
  bc_errors :: nat
  bc_totalHandlerMs :: int
  bc_lastTickAt :: int
  bc_maxHandlerMs :: int

definition createBridgeClock :: "('w \<Rightarrow> int) \<Rightarrow> 'w bridgeClock" where
  "createBridgeClock dateNow =
     \<lparr> bc_dateNow = dateNow, bc_handler = None, bc_running = False, bc_seq = 0,
       bc_tickCount = 0, bc_errors = 0, bc_totalHandlerMs = 0, bc_lastTickAt = 0,
       bc_maxHandlerMs = 0 \<rparr>"

definition bridge_start ::
  "'w bridgeHandler \<Rightarrow> 'w bridgeClock \<Rightarrow> unit outcome \<times> 'w bridgeClock" where
  "bridge_start h c =
     (if bc_running c then (Thrown (Error ''Clock already running''), c)
      else (Ok (), c\<lparr> bc_handler := Some h, bc_running := True, bc_seq := 0,
                      bc_tickCount := 0, bc_errors := 0, bc_totalHandlerMs := 0,
                      bc_lastTickAt := 0, bc_maxHandlerMs := 0 \<rparr>))"

definition bridge_stop :: "'w bridgeClock \<Rightarrow> 'w bridgeClock" where
  "bridge_stop c = c\<lparr> bc_running := False, bc_handler := None \<rparr>"

definition bridge_now :: "'w bridgeClock \<Rightarrow> 'w \<Rightarrow> int" where
  "bridge_now c w = bc_dateNow c w"

definition bridge_stats :: "'w bridgeClock \<Rightarrow> tickStats" where
  "bridge_stats c =
     \<lparr> tickCount = bc_tickCount c, droppedTicks = 0, errors = bc_errors c,
       avgHandlerMs = (if bc_tickCount c > 0
                       then of_int (bc_totalHandlerMs c) / of_nat (bc_tickCount c) else 0),
       avgDriftMs = 0, lastTickAt = bc_lastTickAt c,
       maxHandlerMs = of_int (bc_maxHandlerMs c) \<rparr>"

text \<open>The three places of \<^verbatim>\<open>push\<close> that account for the elapsed time.\<close>

definition bridge_recordElapsed :: "int \<Rightarrow> 'w bridgeClock \<Rightarrow> 'w bridgeClock" where
  "bridge_recordElapsed elapsed c =
     (let c1 = c\<lparr> bc_totalHandlerMs := bc_totalHandlerMs c + elapsed \<rparr>
      in if elapsed > bc_maxHandlerMs c1 then c1\<lparr> bc_maxHandlerMs := elapsed \<rparr> else c1)"

text \<open>\<^verbatim>\<open>push(_reason?)\<close>. The result is \<open>Ok\<close> when the call returns; it carries, when the
  handler returned a promise, the start time that the \<^verbatim>\<open>then\<close> callbacks captured. The
  argument is ignored, as in the source.\<close>

definition bridge_push ::
  "string option \<Rightarrow> 'w bridgeClock \<Rightarrow> 'w \<Rightarrow> (int option) outcome \<times> 'w bridgeClock \<times> 'w" where
  "bridge_push reason_arg c w =
     (case (bc_running c, bc_handler c) of
        (True, Some h) \<Rightarrow>
          (let t = \<lparr> ts = bc_dateNow c w, seq = bc_seq c, reason = Bridge, drift = None \<rparr>;
               c1 = c\<lparr> bc_seq := bc_seq c + 1, bc_tickCount := bc_tickCount c + 1,
                       bc_lastTickAt := ts t \<rparr>;
               start = bc_dateNow c w
           in case h t w of
                (SyncThrow e, w') \<Rightarrow>
                  (Ok None,
                   bridge_recordElapsed (bc_dateNow c w' - start)
                     (c1\<lparr> bc_errors := bc_errors c1 + 1 \<rparr>), w')
              | (ReturnsPromise, w') \<Rightarrow> (Ok (Some start), c1, w')
              | (Returns, w') \<Rightarrow>
                  (Ok None, bridge_recordElapsed (bc_dateNow c w' - start) c1, w'))
      | _ \<Rightarrow> (Ok None, c, w))"

text \<open>The \<^verbatim>\<open>then\<close> callbacks of a promise returned by the handler, run when it settles.\<close>

definition bridge_onFulfilled :: "int \<Rightarrow> 'w bridgeClock \<Rightarrow> 'w \<Rightarrow> 'w bridgeClock" where
  "bridge_onFulfilled start c w = bridge_recordElapsed (bc_dateNow c w - start) c"

definition bridge_onRejected :: "int \<Rightarrow> 'w bridgeClock \<Rightarrow> 'w \<Rightarrow> 'w bridgeClock" where
  "bridge_onRejected start c w =
     bridge_recordElapsed (bc_dateNow c w - start) (c\<lparr> bc_errors := bc_errors c + 1 \<rparr>)"

text \<open>Client programs of the bridge clock.\<close>

datatype 'w bridgeCall =
    BStart "'w bridgeHandler"
  | BStop
  | BPush "string option"
  | BFulfilled int
  | BRejected int

fun bridge_call :: "'w bridgeCall \<Rightarrow> 'w bridgeClock \<Rightarrow> 'w \<Rightarrow> 'w bridgeClock \<times> 'w" where
  "bridge_call (BStart h) c w = (snd (bridge_start h c), w)"
| "bridge_call BStop c w = (bridge_stop c, w)"
| "bridge_call (BPush r) c w = snd (bridge_push r c w)"
| "bridge_call (BFulfilled s) c w = (bridge_onFulfilled s c w, w)"
| "bridge_call (BRejected s) c w = (bridge_onRejected s c w, w)"

fun bridge_calls :: "'w bridgeCall list \<Rightarrow> 'w bridgeClock \<Rightarrow> 'w \<Rightarrow> 'w bridgeClock \<times> 'w" where
  "bridge_calls [] c w = (c, w)"
| "bridge_calls (x # xs) c w = (case bridge_call x c w of (c', w') \<Rightarrow> bridge_calls xs c' w')"

section \<open>Interval clock (\<^verbatim>\<open>clock/interval.ts\<close>)\<close>

text \<open>The part of the interval clock that does not depend on real time: construction,
  \<^verbatim>\<open>start\<close>, \<^verbatim>\<open>stop\<close>, \<^verbatim>\<open>stats\<close>, the synchronous part of the three schedulers (which
  arm a timer) and \<^verbatim>\<open>fireTick\<close>, through which every tick of every policy is fired. The
  timer callbacks themselves run under the host's scheduler and are not embedded.\<close>

datatype backpressurePolicy = Block | Drop | Adaptive

record 'w intervalClockOptions =
  opt_intervalMs :: int
  opt_backpressure :: "backpressurePolicy option"
  opt_maxCatchUpTicks :: "int option"
  opt_onDriftWarning :: "(int \<Rightarrow> 'w \<Rightarrow> 'w) option"
  opt_onError :: "(error \<Rightarrow> 'w \<Rightarrow> 'w) option"

record 'w intervalClock =
  ic_intervalMs :: int
  ic_backpressure :: backpressurePolicy
  ic_maxCatchUpTicks :: int
  ic_onDriftWarning :: "(int \<Rightarrow> 'w \<Rightarrow> 'w) option"
  ic_onError :: "(error \<Rightarrow> 'w \<Rightarrow> 'w) option"
  ic_dateNow :: "'w \<Rightarrow> int"
  ic_handler :: "'w tickHandler option"
  ic_timer :: "int option"
  ic_running :: bool
  ic_seq :: nat
  ic_busy :: bool
  ic_tickCount :: nat
  ic_droppedTicks :: nat
  ic_errors :: nat
  ic_totalHandlerMs :: int
  ic_totalDriftMs :: int
  ic_lastTickAt :: int
  ic_maxHandlerMs :: int
  ic_consecutiveHighDrift :: nat
  ic_nextIdealTime :: int
  ic_accumulator :: int

definition DRIFT_WARN_RATIO :: rat where
  "DRIFT_WARN_RATIO = 8 / 10"

definition DRIFT_WARN_COUNT :: nat where
  "DRIFT_WARN_COUNT = 5"

definition createIntervalClock ::
  "'w intervalClockOptions \<Rightarrow> ('w \<Rightarrow> int) \<Rightarrow> ('w intervalClock) outcome" where
  "createIntervalClock options dateNow =
     (if opt_intervalMs options \<le> 0 then Thrown (Error ''intervalMs must be positive'')
      else Ok \<lparr> ic_intervalMs = opt_intervalMs options,
                ic_backpressure = (case opt_backpressure options of None \<Rightarrow> Block | Some p \<Rightarrow> p),
                ic_maxCatchUpTicks = (case opt_maxCatchUpTicks options of None \<Rightarrow> 3 | Some n \<Rightarrow> n),
                ic_onDriftWarning = opt_onDriftWarning options,
                ic_onError = opt_onError options,
                ic_dateNow = dateNow, ic_handler = None, ic_timer = None,
                ic_running = False, ic_seq = 0, ic_busy = False, ic_tickCount = 0,
                ic_droppedTicks = 0, ic_errors = 0, ic_totalHandlerMs = 0,
                ic_totalDriftMs = 0, ic_lastTickAt = 0, ic_maxHandlerMs = 0,
                ic_consecutiveHighDrift = 0, ic_nextIdealTime = 0, ic_accumulator = 0 \<rparr>)"

definition interval_resetStats :: "'w intervalClock \<Rightarrow> 'w intervalClock" where
  "interval_resetStats c =
     c\<lparr> ic_tickCount := 0, ic_droppedTicks := 0, ic_errors := 0, ic_totalHandlerMs := 0,
        ic_totalDriftMs := 0, ic_lastTickAt := 0, ic_maxHandlerMs := 0,
        ic_consecutiveHighDrift := 0 \<rparr>"

text \<open>The test \<^verbatim>\<open>Math.abs(drift) > intervalMs * DRIFT_WARN_RATIO\<close>.\<close>

definition highDrift :: "int \<Rightarrow> int \<Rightarrow> bool" where
  "highDrift intervalMs d = (of_int \<bar>d\<bar> > of_int intervalMs * DRIFT_WARN_RATIO)"

text \<open>The block \<^verbatim>\<open>if (drift !== undefined) { ... }\<close> of \<^verbatim>\<open>fireTick\<close>: the drift total and the
  drift-warning detector.\<close>

definition interval_noteDrift ::
  "int option \<Rightarrow> 'w intervalClock \<Rightarrow> 'w \<Rightarrow> 'w intervalClock \<times> 'w" where
  "interval_noteDrift drift_arg c w =
     (case drift_arg of
        None \<Rightarrow> (c, w)
      | Some d \<Rightarrow>
          (let c1 = c\<lparr> ic_totalDriftMs := ic_totalDriftMs c + \<bar>d\<bar> \<rparr>
           in if highDrift (ic_intervalMs c) d
              then (let c2 = c1\<lparr> ic_consecutiveHighDrift := ic_consecutiveHighDrift c1 + 1 \<rparr>
                    in (c2, case ic_onDriftWarning c of
                              Some warn \<Rightarrow>
                                (if ic_consecutiveHighDrift c2 \<ge> DRIFT_WARN_COUNT
                                 then warn d w else w)
                            | None \<Rightarrow> w))
              else (c1\<lparr> ic_consecutiveHighDrift := 0 \<rparr>, w)))"

definition interval_fireTick ::
  "reason \<Rightarrow> int option \<Rightarrow> 'w intervalClock \<Rightarrow> 'w \<Rightarrow> 'w intervalClock \<times> 'w" where
  "interval_fireTick r drift_arg c w =
     (case ic_handler c of
        None \<Rightarrow> (c, w)
      | Some h \<Rightarrow>
          (let t = \<lparr> ts = ic_dateNow c w, seq = ic_seq c, reason = r, drift = drift_arg \<rparr>;
               c1 = c\<lparr> ic_seq := ic_seq c + 1, ic_tickCount := ic_tickCount c + 1,
                       ic_lastTickAt := ts t \<rparr>;
               (c2, w2) = interval_noteDrift drift_arg c1 w;
               start = ic_dateNow c w2;
               (res, w3) = h t w2;
               (c3, w4) = (case res of
                             Some e \<Rightarrow> (c2\<lparr> ic_errors := ic_errors c2 + 1 \<rparr>,
                                        case ic_onError c of Some f \<Rightarrow> f e w3 | None \<Rightarrow> w3)
                           | None \<Rightarrow> (c2, w3));
               elapsed = ic_dateNow c w4 - start;
               c4 = c3\<lparr> ic_totalHandlerMs := ic_totalHandlerMs c3 + elapsed \<rparr>;
               c5 = (if elapsed > ic_maxHandlerMs c4 then c4\<lparr> ic_maxHandlerMs := elapsed \<rparr>
                     else c4)
           in (c5, w4)))"

text \<open>The synchronous part of the schedulers. \<open>ic_timer\<close> holds the delay of the armed
  timeout. \<^verbatim>\<open>nextIdealTime || now + intervalMs\<close> takes the right operand when the left is 0.\<close>

definition scheduleBlock :: "'w intervalClock \<Rightarrow> 'w \<Rightarrow> 'w intervalClock" where
  "scheduleBlock c w =
     (if \<not> ic_running c then c else c\<lparr> ic_timer := Some (ic_intervalMs c) \<rparr>)"

definition scheduleDrop :: "'w intervalClock \<Rightarrow> 'w \<Rightarrow> 'w intervalClock" where
  "scheduleDrop c w =
     (if \<not> ic_running c then c
      else (let now = ic_dateNow c w;
                nit = (if ic_nextIdealTime c \<noteq> 0 then ic_nextIdealTime c
                       else now + ic_intervalMs c);
                delay = max 0 (nit - now)
            in c\<lparr> ic_nextIdealTime := nit, ic_timer := Some delay \<rparr>))"

definition scheduleAdaptive :: "'w intervalClock \<Rightarrow> 'w \<Rightarrow> 'w intervalClock" where
  "scheduleAdaptive c w =
     (if \<not> ic_running c then c
      else (let now = ic_dateNow c w;
                nit = (if ic_nextIdealTime c \<noteq> 0 then ic_nextIdealTime c
                       else now + ic_intervalMs c);
                delay = max 0 (nit - now)
            in c\<lparr> ic_nextIdealTime := nit, ic_timer := Some delay \<rparr>))"

fun schedulers :: "backpressurePolicy \<Rightarrow> 'w intervalClock \<Rightarrow> 'w \<Rightarrow> 'w intervalClock" where
  "schedulers Block = scheduleBlock"
| "schedulers Drop = scheduleDrop"
| "schedulers Adaptive = scheduleAdaptive"

definition interval_start ::
  "'w tickHandler \<Rightarrow> 'w intervalClock \<Rightarrow> 'w \<Rightarrow> unit outcome \<times> 'w intervalClock" where
  "interval_start h c w =
     (if ic_running c then (Thrown (Error ''Clock already running''), c)
      else (let c1 = interval_resetStats (c\<lparr> ic_handler := Some h, ic_running := True,
                                               ic_seq := 0 \<rparr>);
                c2 = c1\<lparr> ic_nextIdealTime := 0, ic_accumulator := 0, ic_busy := False \<rparr>
            in (Ok (), schedulers (ic_backpressure c2) c2 w)))"

definition interval_stop :: "'w intervalClock \<Rightarrow> 'w intervalClock" where
  "interval_stop c =
     c\<lparr> ic_running := False, ic_timer := None, ic_handler := None, ic_busy := False \<rparr>"

definition interval_now :: "'w intervalClock \<Rightarrow> 'w \<Rightarrow> int" where
  "interval_now c w = ic_dateNow c w"

definition interval_stats :: "'w intervalClock \<Rightarrow> tickStats" where
  "interval_stats c =
     \<lparr> tickCount = ic_tickCount c, droppedTicks = ic_droppedTicks c, errors = ic_errors c,
       avgHandlerMs = (if ic_tickCount c > 0
                       then of_int (ic_totalHandlerMs c) / of_nat (ic_tickCount c) else 0),
       avgDriftMs = (if ic_tickCount c > 0
                     then of_int (ic_totalDriftMs c) / of_nat (ic_tickCount c) else 0),
       lastTickAt = ic_lastTickAt c, maxHandlerMs = of_int (ic_maxHandlerMs c) \<rparr>"

text \<open>A sequence of fired ticks, each given by its reason and drift.\<close>

fun interval_fireTicks ::
  "(reason \<times> int) list \<Rightarrow> 'w intervalClock \<Rightarrow> 'w \<Rightarrow> 'w intervalClock \<times> 'w" where
  "interval_fireTicks [] c w = (c, w)"
| "interval_fireTicks ((r, d) # rest) c w =
     (case interval_fireTick r (Some d) c w of (c', w') \<Rightarrow> interval_fireTicks rest c' w')"

text \<open>The length of the run of consecutive high-drift ticks that ends a sequence of
  drifts.\<close>

definition highDriftRun :: "int \<Rightarrow> int list \<Rightarrow> nat" where
  "highDriftRun intervalMs ds = length (takeWhile (highDrift intervalMs) (rev ds))"

section \<open>Signals, store, executor, transport (\<^verbatim>\<open>types.ts\<close> and the default layers)\<close>

record 'p signal =
  sig_type :: string
  sig_ts :: int
  sig_id :: string
  sig_source :: "string option"
  sig_payload :: 'p


text \<open>The state that changes while a signal is dispatched: the three counters of the bus,
  the private state of the executor and the environment of the callbacks.\<close>

record ('x, 'w) busState =
  emittedCount :: nat
  handledCount :: nat
  errorCount :: nat
  executorState :: 'x
  env :: 'w

text \<open>An asynchronous function \<^verbatim>\<open>() => Promise<void>\<close>, awaited by its caller.\<close>

type_synonym ('x, 'w) task = "('x, 'w) busState \<Rightarrow> unit outcome \<times> ('x, 'w) busState"

type_synonym ('p, 'x, 'w) middleware = "'p signal \<Rightarrow> ('x, 'w) task \<Rightarrow> ('x, 'w) task"

record ('p, 'w) signalStore =
  save :: "'p signal \<Rightarrow> 'w \<Rightarrow> unit outcome \<times> 'w"
  markAcked :: "string \<Rightarrow> 'w \<Rightarrow> unit outcome \<times> 'w"
  getUnacked :: "'w \<Rightarrow> ('p signal list) outcome \<times> 'w"

definition createNoopStore :: "('p, 'w) signalStore" where
  "createNoopStore =
     \<lparr> save = (\<lambda>s w. (Ok (), w)), markAcked = (\<lambda>i w. (Ok (), w)),
       getUnacked = (\<lambda>w. (Ok [], w)) \<rparr>"

text \<open>Handlers are function references of type \<open>'h\<close>, compared by identity; \<open>call\<close> is the
  host's function call on such a reference. An executor runs a handler on its own state
  \<open>'x\<close> and the environment.\<close>

type_synonym ('h, 'p, 'w) call = "'h \<Rightarrow> 'p signal \<Rightarrow> 'w \<Rightarrow> error option \<times> 'w"

type_synonym ('h, 'p, 'x, 'w) executor =
  "'h \<Rightarrow> 'p signal \<Rightarrow> 'x \<times> 'w \<Rightarrow> unit outcome \<times> 'x \<times> 'w"

text \<open>\<^verbatim>\<open>createSequentialExecutor\<close>: \<^verbatim>\<open>processing++; try { await handler(signal) } finally { processing-- }\<close>.\<close>

definition sequential_execute :: "('h, 'p, 'w) call \<Rightarrow> ('h, 'p, nat, 'w) executor" where
  "sequential_execute call h s xw =
     (let processing = fst xw + 1
      in case call h s (snd xw) of
           (None, w') \<Rightarrow> (Ok (), processing - 1, w')
         | (Some e, w') \<Rightarrow> (Thrown e, processing - 1, w'))"

definition sequential_stats :: "nat \<Rightarrow> nat \<times> nat" where
  "sequential_stats processing = (0, processing)"

text \<open>\<^verbatim>\<open>createMemoryTransport\<close>: \<^verbatim>\<open>emit\<close> awaits each subscriber in turn and catches nothing.
  A transport is given here as its \<^verbatim>\<open>emit\<close>, as a function of the one subscriber the bus
  installs at construction.\<close>

fun memory_emit :: "('p signal \<Rightarrow> ('x, 'w) task) list \<Rightarrow> 'p signal \<Rightarrow> ('x, 'w) task" where
  "memory_emit [] s st = (Ok (), st)"
| "memory_emit (sub # subs) s st =
     (case sub s st of
        (Thrown e, st') \<Rightarrow> (Thrown e, st')
      | (Ok u, st') \<Rightarrow> memory_emit subs s st')"

type_synonym ('p, 'x, 'w) transport =
  "('p signal \<Rightarrow> ('x, 'w) task) \<Rightarrow> 'p signal \<Rightarrow> ('x, 'w) task"

definition createMemoryTransport :: "('p, 'x, 'w) transport" where
  "createMemoryTransport subscriber = memory_emit [subscriber]"

section \<open>Signal bus (\<^verbatim>\<open>bus.ts\<close>)\<close>

text \<open>The closure of \<^verbatim>\<open>createSignalBus\<close> apart from the counters. \<open>typeHandlers\<close> maps a type
  to the address of its handler array in \<open>arrays\<close>: the unsubscribe closure of \<^verbatim>\<open>on\<close>
  keeps the array itself, also after \<^verbatim>\<open>clear\<close> has emptied the map.\<close>

record ('h, 'p, 'x, 'w) signalBus =
  transport :: "('p, 'x, 'w) transport"
  store :: "('p, 'w) signalStore"
  executor :: "('h, 'p, 'x, 'w) executor"
  onError :: "'p signal \<Rightarrow> string \<Rightarrow> error \<Rightarrow> 'w \<Rightarrow> 'w"
  arrays :: "nat \<Rightarrow> 'h list"
  nextArray :: nat
  typeHandlers :: "(string \<times> nat) list"
  anyHandlers :: "'h list"
  middlewareStack :: "('p, 'x, 'w) middleware list"

definition createSignalBus ::
  "('p, 'x, 'w) transport \<Rightarrow> ('p, 'w) signalStore \<Rightarrow> ('h, 'p, 'x, 'w) executor \<Rightarrow>
   ('p signal \<Rightarrow> string \<Rightarrow> error \<Rightarrow> 'w \<Rightarrow> 'w) \<Rightarrow> ('h, 'p, 'x, 'w) signalBus" where
  "createSignalBus tr sto ex onErr =
     \<lparr> transport = tr, store = sto, executor = ex, onError = onErr,
       arrays = (\<lambda>a. []), nextArray = 0, typeHandlers = [], anyHandlers = [],
       middlewareStack = [] \<rparr>"

text \<open>The bus of \<^verbatim>\<open>createSignalBus({})\<close>: every option takes its default.\<close>

definition createDefaultSignalBus :: "('h, 'p, 'w) call \<Rightarrow> ('h, 'p, nat, 'w) signalBus" where
  "createDefaultSignalBus call =
     createSignalBus createMemoryTransport createNoopStore (sequential_execute call)
       (\<lambda>s l e w. w)"

definition initialBusState :: "'x \<Rightarrow> 'w \<Rightarrow> ('x, 'w) busState" where
  "initialBusState x w =
     \<lparr> emittedCount = 0, handledCount = 0, errorCount = 0, executorState = x, env = w \<rparr>"

text \<open>\<^verbatim>\<open>Array.prototype.indexOf\<close> (\<open>None\<close> for -1) and \<^verbatim>\<open>splice(idx, 1)\<close>.\<close>

fun indexOf :: "'a \<Rightarrow> 'a list \<Rightarrow> nat option" where
  "indexOf x [] = None"
| "indexOf x (y # ys) = (if x = y then Some 0 else map_option Suc (indexOf x ys))"

definition splice1 :: "nat \<Rightarrow> 'a list \<Rightarrow> 'a list" where
  "splice1 idx xs = take idx xs @ drop (Suc idx) xs"

text \<open>The closure returned by \<^verbatim>\<open>on\<close> (it holds the array and the handler) and by \<^verbatim>\<open>onAny\<close>.\<close>

datatype 'h subscription = UnsubTyped nat 'h | UnsubAny 'h

definition on ::
  "string \<Rightarrow> 'h \<Rightarrow> ('h, 'p, 'x, 'w) signalBus \<Rightarrow> ('h, 'p, 'x, 'w) signalBus \<times> 'h subscription" where
  "on t h b =
     (case (case map_of (typeHandlers b) t of
              Some a \<Rightarrow> (b, a)
            | None \<Rightarrow> (b\<lparr> arrays := (arrays b)(nextArray b := []),
                          typeHandlers := typeHandlers b @ [(t, nextArray b)],
                          nextArray := nextArray b + 1 \<rparr>, nextArray b)) of
        (b1, a) \<Rightarrow> (b1\<lparr> arrays := (arrays b1)(a := arrays b1 a @ [h]) \<rparr>, UnsubTyped a h))"

definition onAny ::
  "'h \<Rightarrow> ('h, 'p, 'x, 'w) signalBus \<Rightarrow> ('h, 'p, 'x, 'w) signalBus \<times> 'h subscription" where
  "onAny h b = (b\<lparr> anyHandlers := anyHandlers b @ [h] \<rparr>, UnsubAny h)"

fun unsubscribe ::
  "'h subscription \<Rightarrow> ('h, 'p, 'x, 'w) signalBus \<Rightarrow> ('h, 'p, 'x, 'w) signalBus" where
  "unsubscribe (UnsubTyped a h) b =
     (case indexOf h (arrays b a) of
        None \<Rightarrow> b
      | Some idx \<Rightarrow> b\<lparr> arrays := (arrays b)(a := splice1 idx (arrays b a)) \<rparr>)"
| "unsubscribe (UnsubAny h) b =
     (case indexOf h (anyHandlers b) of
        None \<Rightarrow> b
      | Some idx \<Rightarrow> b\<lparr> anyHandlers := splice1 idx (anyHandlers b) \<rparr>)"

definition use ::
  "('p, 'x, 'w) middleware \<Rightarrow> ('h, 'p, 'x, 'w) signalBus \<Rightarrow> ('h, 'p, 'x, 'w) signalBus" where
  "use mw b = b\<lparr> middlewareStack := middlewareStack b @ [mw] \<rparr>"

definition clear :: "('h, 'p, 'x, 'w) signalBus \<Rightarrow> ('h, 'p, 'x, 'w) signalBus" where
  "clear b = b\<lparr> typeHandlers := [], anyHandlers := [], middlewareStack := [] \<rparr>"


text \<open>Decimal digits of an array index, for the label \<^verbatim>\<open>`any:${i}`\<close>.\<close>

definition digit :: "nat \<Rightarrow> char" where
  "digit n = ''0123456789'' ! (n mod 10)"

fun string_of_nat :: "nat \<Rightarrow> string" where
  "string_of_nat n =
     (if n < 10 then [digit n] else string_of_nat (n div 10) @ [digit n])"

text \<open>\<^verbatim>\<open>typeHandlers.get(signal.type) ?? []\<close>.\<close>

definition handlersFor :: "('h, 'p, 'x, 'w) signalBus \<Rightarrow> string \<Rightarrow> 'h list" where
  "handlersFor b t = (case map_of (typeHandlers b) t of None \<Rightarrow> [] | Some a \<Rightarrow> arrays b a)"

text \<open>The guards \<^verbatim>\<open>if (!handler) continue\<close> and \<^verbatim>\<open>if (!mw) continue\<close> skip entries that are
  not functions; the lists hold functions only, so the guards never fire and are left
  out.\<close>

text \<open>One iteration of either loop of \<^verbatim>\<open>runHandlers\<close>:
  \<^verbatim>\<open>try { await executor.execute(handler, signal); handledCount++ }
  catch (err) { errorCount++; onError(signal, label, err) }\<close>.\<close>

definition dispatchOne ::
  "('h, 'p, 'x, 'w) signalBus \<Rightarrow> 'p signal \<Rightarrow> string \<Rightarrow> 'h \<Rightarrow> ('x, 'w) busState \<Rightarrow>
   ('x, 'w) busState" where
  "dispatchOne b s label h st =
     (case executor b h s (executorState st, env st) of
        (Ok u, x', w') \<Rightarrow>
          st\<lparr> executorState := x', env := w', handledCount := handledCount st + 1 \<rparr>
      | (Thrown e, x', w') \<Rightarrow>
          st\<lparr> executorState := x', errorCount := errorCount st + 1,
              env := onError b s label e w' \<rparr>)"

fun runTypeHandlers ::
  "('h, 'p, 'x, 'w) signalBus \<Rightarrow> 'p signal \<Rightarrow> 'h list \<Rightarrow> ('x, 'w) busState \<Rightarrow>
   ('x, 'w) busState" where
  "runTypeHandlers b s [] st = st"
| "runTypeHandlers b s (h # hs) st =
     runTypeHandlers b s hs (dispatchOne b s (''type:'' @ sig_type s) h st)"

fun runAnyHandlers ::
  "('h, 'p, 'x, 'w) signalBus \<Rightarrow> 'p signal \<Rightarrow> nat \<Rightarrow> 'h list \<Rightarrow> ('x, 'w) busState \<Rightarrow>
   ('x, 'w) busState" where
  "runAnyHandlers b s i [] st = st"
| "runAnyHandlers b s i (h # hs) st =
     runAnyHandlers b s (Suc i) hs (dispatchOne b s (''any:'' @ string_of_nat i) h st)"

definition runHandlers :: "('h, 'p, 'x, 'w) signalBus \<Rightarrow> 'p signal \<Rightarrow> ('x, 'w) task" where
  "runHandlers b s st =
     (Ok (), runAnyHandlers b s 0 (anyHandlers b)
               (runTypeHandlers b s (handlersFor b (sig_type s)) st))"

text \<open>\<^verbatim>\<open>processSignal\<close>: the chain is built from the last middleware to the first, each
  wrapping the chain built so far, and then awaited.\<close>

definition processSignal :: "('h, 'p, 'x, 'w) signalBus \<Rightarrow> 'p signal \<Rightarrow> ('x, 'w) task" where
  "processSignal b s =
     fold (\<lambda>mw chain. mw s chain) (rev (middlewareStack b)) (runHandlers b s)"

definition emit :: "('h, 'p, 'x, 'w) signalBus \<Rightarrow> 'p signal \<Rightarrow> ('x, 'w) task" where
  "emit b s st =
     (let st1 = st\<lparr> emittedCount := emittedCount st + 1 \<rparr>
      in case save (store b) s (env st1) of
           (Thrown e, w1) \<Rightarrow> (Thrown e, st1\<lparr> env := w1 \<rparr>)
         | (Ok u, w1) \<Rightarrow>
             (case transport b (processSignal b) s (st1\<lparr> env := w1 \<rparr>) of
                (Thrown e, st2) \<Rightarrow> (Thrown e, st2)
              | (Ok u, st2) \<Rightarrow>
                  (case markAcked (store b) (sig_id s) (env st2) of
                     (r, w3) \<Rightarrow> (r, st2\<lparr> env := w3 \<rparr>))))"



section \<open>Notions used in the statements\<close>

text \<open>What an unsubscribe closure holds: the list it searches and the handler it looks for.\<close>

fun subscribedList :: "'h subscription \<Rightarrow> ('h, 'p, 'x, 'w) signalBus \<Rightarrow> 'h list" where
  "subscribedList (UnsubTyped a h) b = arrays b a"
| "subscribedList (UnsubAny h) b = anyHandlers b"

fun subscribedHandler :: "'h subscription \<Rightarrow> 'h" where
  "subscribedHandler (UnsubTyped a h) = h"
| "subscribedHandler (UnsubAny h) = h"

text \<open>Three shapes of middleware. \<open>around pre post\<close> is
  \<^verbatim>\<open>async (s, next) => { pre(s); await next(); post(s) }\<close>: it calls \<^verbatim>\<open>next\<close> once and throws
  nothing of its own. \<open>skipping eff\<close> is \<^verbatim>\<open>async (s, next) => { eff(s) }\<close>: it returns
  without calling \<^verbatim>\<open>next\<close>. \<open>throwing eff e\<close> is \<^verbatim>\<open>async (s, next) => { eff(s); throw e }\<close>.\<close>

definition around ::
  "('p signal \<Rightarrow> 'w \<Rightarrow> 'w) \<Rightarrow> ('p signal \<Rightarrow> 'w \<Rightarrow> 'w) \<Rightarrow> ('p, 'x, 'w) middleware" where
  "around pre post s nxt st =
     (case nxt (st\<lparr> env := pre s (env st) \<rparr>) of
        (Thrown e, st') \<Rightarrow> (Thrown e, st')
      | (Ok u, st') \<Rightarrow> (Ok (), st'\<lparr> env := post s (env st') \<rparr>))"

definition skipping :: "('p signal \<Rightarrow> 'w \<Rightarrow> 'w) \<Rightarrow> ('p, 'x, 'w) middleware" where
  "skipping eff s nxt st = (Ok (), st\<lparr> env := eff s (env st) \<rparr>)"


text \<open>The effects of a list of \<open>around\<close> middleware before and after the call of \<^verbatim>\<open>next\<close>:
  the first registered runs its \<open>pre\<close> first and its \<open>post\<close> last.\<close>

fun preEffects :: "(('p signal \<Rightarrow> 'w \<Rightarrow> 'w) \<times> ('p signal \<Rightarrow> 'w \<Rightarrow> 'w)) list \<Rightarrow> 'p signal \<Rightarrow> 'w \<Rightarrow> 'w" where
  "preEffects [] s w = w"
| "preEffects ((pre, post) # ms) s w = preEffects ms s (pre s w)"

fun postEffects :: "(('p signal \<Rightarrow> 'w \<Rightarrow> 'w) \<times> ('p signal \<Rightarrow> 'w \<Rightarrow> 'w)) list \<Rightarrow> 'p signal \<Rightarrow> 'w \<Rightarrow> 'w" where
  "postEffects [] s w = w"
| "postEffects ((pre, post) # ms) s w = post s (postEffects ms s w)"






section \<open>Test clock: properties\<close>

declare string_of_nat.simps [simp del]
















text \<open>
  Claim C1, on the test clock. \<^verbatim>\<open>start\<close> of the test clock sets the handler and the running
  flag and nothing else. With interval 100: start, \<^verbatim>\<open>tick()\<close>, stop, start again. Right
  after the second start \<^verbatim>\<open>seq\<close> is 1, \<^verbatim>\<open>stats().tickCount\<close> is 1 and \<^verbatim>\<open>stats().lastTickAt\<close>
  is 100; the first tick of the second epoch carries \<^verbatim>\<open>seq = 1\<close> (the handler logs the
  \<^verbatim>\<open>seq\<close> of every tick it receives: 0 in the first epoch, then 1).
\<close>

theorem test_restart_keeps_seq:
  "(case test_calls [TStart (\<lambda>t w. (None, w @ [seq t])), TTick 1, TStop,
                     TStart (\<lambda>t w. (None, w @ [seq t]))]
           (createTestClock 100 (\<lambda>w. 0)) [] of
      (c, w) \<Rightarrow> tc_running c \<and> tc_seq c = 1 \<and> tickCount (test_stats c) = 1 \<and>
        lastTickAt (test_stats c) = 100 \<and>
        snd (snd (test_tick 1 c w)) = [0, 1])"
  by (simp add: createTestClock_def test_start_def test_tick_def test_stop_def test_stats_def
        test_fireSingleTick_def Let_def)

section \<open>Bridge clock: properties\<close>

lemma bridge_recordElapsed_frame:
  "bc_running (bridge_recordElapsed n c) = bc_running c \<and>
   bc_handler (bridge_recordElapsed n c) = bc_handler c \<and>
   bc_dateNow (bridge_recordElapsed n c) = bc_dateNow c \<and>
   bc_seq (bridge_recordElapsed n c) = bc_seq c \<and>
   bc_tickCount (bridge_recordElapsed n c) = bc_tickCount c \<and>
   bc_errors (bridge_recordElapsed n c) = bc_errors c"
  by (simp add: bridge_recordElapsed_def Let_def)

lemma bridge_start_resets:
  assumes "\<not> bc_running c"
  shows "\<exists>c1. bridge_start h c = (Ok (), c1) \<and> bc_running c1 \<and> bc_seq c1 = 0 \<and>
           bridge_stats c1 =
             \<lparr> tickCount = 0, droppedTicks = 0, errors = 0, avgHandlerMs = 0, avgDriftMs = 0,
               lastTickAt = 0, maxHandlerMs = 0 \<rparr>"
  using assms by (simp add: bridge_start_def bridge_stats_def)

lemma bridge_call_inv:
  assumes "bridge_call x c w = (c', w')" and "bc_running c \<longrightarrow> bc_handler c \<noteq> None"
  shows "(bc_running c' \<longrightarrow> bc_handler c' \<noteq> None) \<and> bc_dateNow c' = bc_dateNow c"
  using assms
  by (cases x)
     (auto simp: bridge_start_def bridge_stop_def bridge_push_def bridge_onFulfilled_def
        bridge_onRejected_def bridge_recordElapsed_frame Let_def
        split: if_splits option.splits prod.splits handlerResult.splits bool.splits)

lemma bridge_calls_inv:
  assumes "bridge_calls xs c w = (c', w')" and "bc_running c \<longrightarrow> bc_handler c \<noteq> None"
  shows "(bc_running c' \<longrightarrow> bc_handler c' \<noteq> None) \<and> bc_dateNow c' = bc_dateNow c"
  using assms
proof (induction xs arbitrary: c w)
  case Nil
  then show ?case by simp
next
  case (Cons x xs)
  obtain c1 w1 where s: "bridge_call x c w = (c1, w1)" by (metis prod.exhaust)
  from bridge_call_inv[OF s Cons.prems(2)]
  have i: "bc_running c1 \<longrightarrow> bc_handler c1 \<noteq> None" and d: "bc_dateNow c1 = bc_dateNow c" by simp_all
  from Cons.prems(1) s have r: "bridge_calls xs c1 w1 = (c', w')" by simp
  from Cons.IH[OF r i] d show ?case by simp
qed

lemma bridge_push_running:
  assumes "bc_running c" and "bc_handler c = Some h"
    and "h \<lparr> ts = bc_dateNow c w, seq = bc_seq c, reason = Bridge, drift = None \<rparr> w = (res, w')"
  shows "\<exists>p c'. bridge_push r c w = (Ok p, c', w') \<and> bc_running c' \<and>
           bc_seq c' = bc_seq c + 1 \<and> bc_tickCount c' = bc_tickCount c + 1 \<and>
           bc_errors c' = bc_errors c + (case res of SyncThrow e \<Rightarrow> 1 | _ \<Rightarrow> 0)"
  using assms
  by (cases res) (simp_all add: bridge_push_def Let_def bridge_recordElapsed_frame)

lemma bridge_push_reachable:
  assumes "bridge_calls calls (createBridgeClock dateNow) w0 = (c, w)"
  shows "(\<not> bc_running c \<longrightarrow> bridge_push r c w = (Ok None, c, w)) \<and>
         (bc_running c \<longrightarrow>
            (\<exists>h. bc_handler c = Some h \<and>
               (case h \<lparr> ts = dateNow w, seq = bc_seq c, reason = Bridge, drift = None \<rparr> w of
                  (res, w') \<Rightarrow>
                    (\<exists>p c'. bridge_push r c w = (Ok p, c', w') \<and> bc_running c' \<and>
                       bc_seq c' = bc_seq c + 1 \<and>
                       tickCount (bridge_stats c') = tickCount (bridge_stats c) + 1 \<and>
                       errors (bridge_stats c') =
                         errors (bridge_stats c) + (case res of SyncThrow e \<Rightarrow> 1 | _ \<Rightarrow> 0)))))"
proof -
  have i: "bc_running c \<longrightarrow> bc_handler c \<noteq> None" and d: "bc_dateNow c = dateNow"
    using bridge_calls_inv[OF assms] by (simp_all add: createBridgeClock_def)
  have a: "bridge_push r c w = (Ok None, c, w)" if "\<not> bc_running c"
    using that by (simp add: bridge_push_def)
  have b: "\<exists>h. bc_handler c = Some h \<and>
               (case h \<lparr> ts = dateNow w, seq = bc_seq c, reason = Bridge, drift = None \<rparr> w of
                  (res, w') \<Rightarrow>
                    (\<exists>p c'. bridge_push r c w = (Ok p, c', w') \<and> bc_running c' \<and>
                       bc_seq c' = bc_seq c + 1 \<and>
                       tickCount (bridge_stats c') = tickCount (bridge_stats c) + 1 \<and>
                       errors (bridge_stats c') =
                         errors (bridge_stats c) + (case res of SyncThrow e \<Rightarrow> 1 | _ \<Rightarrow> 0)))"
    if run: "bc_running c"
  proof -
    from i run obtain h where h: "bc_handler c = Some h" by auto
    obtain res w' where e: "h \<lparr> ts = bc_dateNow c w, seq = bc_seq c, reason = Bridge, drift = None \<rparr> w = (res, w')"
      by (metis prod.exhaust)
    from bridge_push_running[OF run h e, of r] e h d show ?thesis
      by (auto simp: bridge_stats_def)
  qed
  show ?thesis using a b by blast
qed

text \<open>
  Claim C9. In every state the bridge clock can reach (any sequence of start, stop, push
  and promise settlements after \<^verbatim>\<open>createBridgeClock\<close>): a \<^verbatim>\<open>push\<close> while the clock is not
  running returns and changes neither the clock nor the environment; a \<^verbatim>\<open>push\<close> while it
  is running calls the handler exactly once, on the tick with \<^verbatim>\<open>ts = Date.now()\<close>, the
  current \<^verbatim>\<open>seq\<close> and reason \<^verbatim>\<open>bridge\<close>, advances \<^verbatim>\<open>seq\<close> and \<^verbatim>\<open>tickCount\<close> by one, and
  returns normally whatever the handler does; when the handler throws synchronously,
  \<^verbatim>\<open>stats().errors\<close> grows by one.
\<close>

theorem bridge_push_one_tick:
  "(case bridge_calls calls (createBridgeClock dateNow) wi of
      (c, w) \<Rightarrow>
        (\<not> bc_running c \<longrightarrow> bridge_push r c w = (Ok None, c, w)) \<and>
        (bc_running c \<longrightarrow>
           (\<exists>h. bc_handler c = Some h \<and>
              (case h \<lparr> ts = dateNow w, seq = bc_seq c, reason = Bridge, drift = None \<rparr> w of
                 (res, w') \<Rightarrow>
                   (\<exists>p c'. bridge_push r c w = (Ok p, c', w') \<and> bc_running c' \<and>
                      bc_seq c' = bc_seq c + 1 \<and>
                      tickCount (bridge_stats c') = tickCount (bridge_stats c) + 1 \<and>
                      errors (bridge_stats c') =
                        errors (bridge_stats c) + (case res of SyncThrow e \<Rightarrow> 1 | _ \<Rightarrow> 0))))))"
proof -
  obtain c w where r: "bridge_calls calls (createBridgeClock dateNow) wi = (c, w)"
    by (metis prod.exhaust)
  from bridge_push_reachable[OF r, of r] r show ?thesis by simp
qed

text \<open>Two pushes, then a third whose handler throws, then a push after stop.\<close>

theorem bridge_push_one_tick_witness:
  "(case bridge_calls [BStart (\<lambda>t w. (if seq t = 2 then SyncThrow (Error ''boom'') else Returns,
                                         w @ [(seq t, reason t)])),
                       BPush None, BPush None]
          (createBridgeClock (\<lambda>w. 7)) [] of
      (c, w) \<Rightarrow> bc_running c \<and> w = [(0, Bridge), (1, Bridge)] \<and>
        (\<exists>p c'. bridge_push None c w = (Ok p, c', w @ [(2, Bridge)]) \<and> bc_seq c' = 3 \<and>
                 errors (bridge_stats c') = 1 \<and>
                 bridge_push None (bridge_stop c') (w @ [(2, Bridge)]) =
                   (Ok None, bridge_stop c', w @ [(2, Bridge)])))"
  using bridge_push_one_tick [where calls = "[BStart (\<lambda>t w. (if seq t = 2 then SyncThrow (Error ''boom'') else Returns,
                                         w @ [(seq t, reason t)])), BPush None, BPush None]"
      and dateNow = "\<lambda>w. 7" and wi = "[]" and r = None]
  by (simp add: createBridgeClock_def bridge_start_def bridge_push_def bridge_stop_def
        bridge_stats_def bridge_recordElapsed_def Let_def)

section \<open>Interval clock: properties\<close>

lemma noteDrift_frame:
  "interval_noteDrift dr c w = (c', w') \<Longrightarrow>
     ic_handler c' = ic_handler c \<and> ic_intervalMs c' = ic_intervalMs c \<and>
     ic_onDriftWarning c' = ic_onDriftWarning c \<and> ic_seq c' = ic_seq c \<and>
     ic_running c' = ic_running c \<and> ic_dateNow c' = ic_dateNow c \<and>
     ic_onError c' = ic_onError c"
  by (auto simp: interval_noteDrift_def Let_def split: option.splits if_splits)

lemma noteDrift_counter:
  "interval_noteDrift (Some d) c w = (c', w') \<Longrightarrow>
     ic_consecutiveHighDrift c' =
       (if highDrift (ic_intervalMs c) d then ic_consecutiveHighDrift c + 1 else 0) \<and>
     w' = (case ic_onDriftWarning c of
             None \<Rightarrow> w
           | Some warn \<Rightarrow>
               (if highDrift (ic_intervalMs c) d \<and> DRIFT_WARN_COUNT \<le> ic_consecutiveHighDrift c + 1
                then warn d w else w))"
  by (auto simp: interval_noteDrift_def Let_def split: option.splits if_splits)

lemma fireTick_unfold:
  assumes "ic_handler c = Some h"
    and "interval_noteDrift dr (c\<lparr> ic_seq := ic_seq c + 1, ic_tickCount := ic_tickCount c + 1,
                       ic_lastTickAt := ic_dateNow c w \<rparr>) w = (c2, w2)"
    and "h \<lparr> ts = ic_dateNow c w, seq = ic_seq c, reason = r, drift = dr \<rparr> w2 = (res, w3)"
  shows "snd (interval_fireTick r dr c w) =
           (case res of None \<Rightarrow> w3
            | Some e \<Rightarrow> (case ic_onError c of Some f \<Rightarrow> f e w3 | None \<Rightarrow> w3))"
    and "ic_consecutiveHighDrift (fst (interval_fireTick r dr c w)) = ic_consecutiveHighDrift c2"
    and "ic_handler (fst (interval_fireTick r dr c w)) = ic_handler c2"
    and "ic_intervalMs (fst (interval_fireTick r dr c w)) = ic_intervalMs c2"
    and "ic_onDriftWarning (fst (interval_fireTick r dr c w)) = ic_onDriftWarning c2"
    and "ic_seq (fst (interval_fireTick r dr c w)) = ic_seq c2"
    and "ic_dateNow (fst (interval_fireTick r dr c w)) = ic_dateNow c2"
    and "ic_onError (fst (interval_fireTick r dr c w)) = ic_onError c2"
    and "ic_errors (fst (interval_fireTick r dr c w)) =
           ic_errors c2 + (case res of None \<Rightarrow> 0 | Some e \<Rightarrow> 1)"
  using assms
  by (cases res; simp add: interval_fireTick_def Let_def)+

lemma fireTick_detector:
  assumes "ic_handler c = Some h"
  shows "snd (interval_fireTick r (Some d) c w) =
    (case h \<lparr> ts = ic_dateNow c w, seq = ic_seq c, reason = r, drift = Some d \<rparr>
            (case ic_onDriftWarning c of
               None \<Rightarrow> w
             | Some warn \<Rightarrow>
                 (if highDrift (ic_intervalMs c) d \<and>
                     DRIFT_WARN_COUNT \<le> ic_consecutiveHighDrift c + 1
                  then warn d w else w)) of
       (res, w3) \<Rightarrow>
         (case res of None \<Rightarrow> w3
          | Some e \<Rightarrow> (case ic_onError c of Some f \<Rightarrow> f e w3 | None \<Rightarrow> w3)))"
   and "ic_consecutiveHighDrift (fst (interval_fireTick r (Some d) c w)) =
       (if highDrift (ic_intervalMs c) d then ic_consecutiveHighDrift c + 1 else 0)"
   and "ic_handler (fst (interval_fireTick r (Some d) c w)) = Some h"
   and "ic_intervalMs (fst (interval_fireTick r (Some d) c w)) = ic_intervalMs c"
   and "ic_onDriftWarning (fst (interval_fireTick r (Some d) c w)) = ic_onDriftWarning c"
   and "ic_seq (fst (interval_fireTick r (Some d) c w)) = ic_seq c + 1"
   and "ic_dateNow (fst (interval_fireTick r (Some d) c w)) = ic_dateNow c"
   and "ic_onError (fst (interval_fireTick r (Some d) c w)) = ic_onError c"
proof -
  let ?c1 = "c\<lparr> ic_seq := ic_seq c + 1, ic_tickCount := ic_tickCount c + 1,
                       ic_lastTickAt := ic_dateNow c w \<rparr>"
  obtain c2 w2 where n: "interval_noteDrift (Some d) ?c1 w = (c2, w2)" by (metis prod.exhaust)
  note fr = noteDrift_frame[OF n] and cn = noteDrift_counter[OF n]
  obtain res w3 where h: "h \<lparr> ts = ic_dateNow c w, seq = ic_seq c, reason = r, drift = Some d \<rparr> w2 = (res, w3)"
    by (metis prod.exhaust)
  note u = fireTick_unfold[OF assms n h]
  have w2: "w2 = (case ic_onDriftWarning c of
               None \<Rightarrow> w
             | Some warn \<Rightarrow>
                 (if highDrift (ic_intervalMs c) d \<and>
                     DRIFT_WARN_COUNT \<le> ic_consecutiveHighDrift c + 1
                  then warn d w else w))"
    using cn by (simp split: option.splits)
  show "snd (interval_fireTick r (Some d) c w) =
    (case h \<lparr> ts = ic_dateNow c w, seq = ic_seq c, reason = r, drift = Some d \<rparr>
            (case ic_onDriftWarning c of
               None \<Rightarrow> w
             | Some warn \<Rightarrow>
                 (if highDrift (ic_intervalMs c) d \<and>
                     DRIFT_WARN_COUNT \<le> ic_consecutiveHighDrift c + 1
                  then warn d w else w)) of
       (res, w3) \<Rightarrow>
         (case res of None \<Rightarrow> w3
          | Some e \<Rightarrow> (case ic_onError c of Some f \<Rightarrow> f e w3 | None \<Rightarrow> w3)))"
    using u(1) h unfolding w2 by simp
  show "ic_consecutiveHighDrift (fst (interval_fireTick r (Some d) c w)) =
       (if highDrift (ic_intervalMs c) d then ic_consecutiveHighDrift c + 1 else 0)"
    using u(2) cn by simp
  show "ic_handler (fst (interval_fireTick r (Some d) c w)) = Some h"
    using u(3) fr assms by simp
  show "ic_intervalMs (fst (interval_fireTick r (Some d) c w)) = ic_intervalMs c"
    using u(4) fr by simp
  show "ic_onDriftWarning (fst (interval_fireTick r (Some d) c w)) = ic_onDriftWarning c"
    using u(5) fr by simp
  show "ic_seq (fst (interval_fireTick r (Some d) c w)) = ic_seq c + 1"
    using u(6) fr by simp
  show "ic_dateNow (fst (interval_fireTick r (Some d) c w)) = ic_dateNow c"
    using u(7) fr by simp
  show "ic_onError (fst (interval_fireTick r (Some d) c w)) = ic_onError c"
    using u(8) fr by simp
qed

lemma highDriftRun_snoc:
  "highDriftRun I (ds @ [d]) = (if highDrift I d then highDriftRun I ds + 1 else 0)"
  by (simp add: highDriftRun_def)

lemma fireTicks_snoc:
  "interval_fireTicks (ticks @ [(r, d)]) c w =
     (case interval_fireTicks ticks c w of (c', w') \<Rightarrow> interval_fireTick r (Some d) c' w')"
  by (induction ticks arbitrary: c w) (auto split: prod.splits)

lemma fireTicks_counter:
  assumes "ic_handler c = Some h" and "ic_consecutiveHighDrift c = 0"
  shows "ic_consecutiveHighDrift (fst (interval_fireTicks ticks c w)) =
           highDriftRun (ic_intervalMs c) (map snd ticks)
         \<and> ic_handler (fst (interval_fireTicks ticks c w)) = Some h
         \<and> ic_intervalMs (fst (interval_fireTicks ticks c w)) = ic_intervalMs c
         \<and> ic_onDriftWarning (fst (interval_fireTicks ticks c w)) = ic_onDriftWarning c
         \<and> ic_seq (fst (interval_fireTicks ticks c w)) = ic_seq c + length ticks
         \<and> ic_dateNow (fst (interval_fireTicks ticks c w)) = ic_dateNow c
         \<and> ic_onError (fst (interval_fireTicks ticks c w)) = ic_onError c"
proof (induction ticks rule: rev_induct)
  case Nil
  then show ?case using assms by (simp add: highDriftRun_def)
next
  case (snoc x xs)
  obtain r d where x: "x = (r, d)" by (metis prod.exhaust)
  obtain c' w' where p: "interval_fireTicks xs c w = (c', w')" by (metis prod.exhaust)
  from snoc p have ih: "ic_consecutiveHighDrift c' = highDriftRun (ic_intervalMs c) (map snd xs)"
    "ic_handler c' = Some h" "ic_intervalMs c' = ic_intervalMs c"
    "ic_onDriftWarning c' = ic_onDriftWarning c" "ic_seq c' = ic_seq c + length xs"
    "ic_dateNow c' = ic_dateNow c" "ic_onError c' = ic_onError c" by simp_all
  note d = fireTick_detector[OF ih(2), of r d w']
  have e: "interval_fireTicks (xs @ [x]) c w = interval_fireTick r (Some d) c' w'"
    using p x by (simp add: fireTicks_snoc)
  show ?case unfolding e using d(2-8) ih x by (simp add: highDriftRun_snoc)
qed

lemma highDriftRun_last:
  assumes "n \<le> highDriftRun I ds"
  shows "n \<le> length ds \<and> (\<forall>d \<in> set (drop (length ds - n) ds). highDrift I d)"
proof -
  let ?t = "takeWhile (highDrift I) (rev ds)"
  have l: "length ?t \<le> length ds" using length_takeWhile_le[of "highDrift I" "rev ds"] by simp
  have n: "n \<le> length ?t" using assms by (simp add: highDriftRun_def)
  have "take n (rev ds) = take n ?t"
    using n by (metis takeWhile_eq_take take_take min.absorb1 highDriftRun_def assms)
  then have "set (take n (rev ds)) \<subseteq> set ?t" by (metis set_take_subset)
  then have "\<forall>d \<in> set (take n (rev ds)). highDrift I d" by (meson set_takeWhileD subsetD)
  moreover have "set (drop (length ds - n) ds) = set (take n (rev ds))"
    by (metis rev_drop rev_rev_ident set_rev length_rev rev_take)
  ultimately show ?thesis using n l by simp
qed

lemma interval_start_resets:
  assumes "\<not> ic_running c0"
  shows "\<exists>c1. interval_start h c0 w0 = (Ok (), c1) \<and> ic_running c1 \<and> ic_handler c1 = Some h \<and>
           ic_seq c1 = 0 \<and> ic_consecutiveHighDrift c1 = 0 \<and>
           ic_intervalMs c1 = ic_intervalMs c0 \<and> ic_onDriftWarning c1 = ic_onDriftWarning c0 \<and>
           ic_dateNow c1 = ic_dateNow c0 \<and> ic_onError c1 = ic_onError c0 \<and>
           interval_stats c1 =
             \<lparr> tickCount = 0, droppedTicks = 0, errors = 0, avgHandlerMs = 0, avgDriftMs = 0,
               lastTickAt = 0, maxHandlerMs = 0 \<rparr>"
  using assms
  by (cases "ic_backpressure c0")
     (simp_all add: interval_start_def interval_resetStats_def interval_stats_def Let_def
        scheduleBlock_def scheduleDrop_def scheduleAdaptive_def)

text \<open>
  Claim C8. An interval clock that is not running is started and fires any sequence of
  ticks (any reasons, any drifts, any handler outcomes). Then the counter of consecutive
  high-drift ticks is the length of the run of high drifts that ends the sequence. A
  further tick with drift \<open>d\<close> sets the counter to its successor when
  \<open>|d| > intervalMs * 0.8\<close> and to 0 otherwise, and \<^verbatim>\<open>onDriftWarning(d)\<close> is invoked on that
  tick, before the handler, exactly when the run of high drifts ending with \<open>d\<close> has
  length at least 5; in that case at least 5 ticks have fired and the last 5 drifts are
  all high.
\<close>

theorem interval_drift_warning:
  assumes "\<not> ic_running c0"
  shows "\<exists>c1. interval_start h c0 w0 = (Ok (), c1) \<and>
    (case interval_fireTicks ticks c1 w1 of
       (c, w) \<Rightarrow>
         ic_consecutiveHighDrift c = highDriftRun (ic_intervalMs c0) (map snd ticks) \<and>
         ic_consecutiveHighDrift (fst (interval_fireTick r (Some d) c w)) =
           (if highDrift (ic_intervalMs c0) d then ic_consecutiveHighDrift c + 1 else 0) \<and>
         snd (interval_fireTick r (Some d) c w) =
           (case h \<lparr> ts = ic_dateNow c0 w, seq = length ticks, reason = r, drift = Some d \<rparr>
                   (case ic_onDriftWarning c0 of
                      None \<Rightarrow> w
                    | Some warn \<Rightarrow>
                        (if DRIFT_WARN_COUNT \<le> highDriftRun (ic_intervalMs c0) (map snd ticks @ [d])
                         then warn d w else w)) of
              (res, w3) \<Rightarrow>
                (case res of None \<Rightarrow> w3
                 | Some e \<Rightarrow> (case ic_onError c0 of Some f \<Rightarrow> f e w3 | None \<Rightarrow> w3))) \<and>
         (DRIFT_WARN_COUNT \<le> highDriftRun (ic_intervalMs c0) (map snd ticks @ [d]) \<longrightarrow>
            DRIFT_WARN_COUNT \<le> length ticks + 1 \<and>
            (\<forall>x \<in> set (drop (length ticks + 1 - DRIFT_WARN_COUNT) (map snd ticks @ [d])).
               highDrift (ic_intervalMs c0) x)))"
proof -
  let ?I = "ic_intervalMs c0"
  from interval_start_resets[OF assms, of h w0]
  obtain c1 where s: "interval_start h c0 w0 = (Ok (), c1)" and h1: "ic_handler c1 = Some h"
    and q1: "ic_seq c1 = 0" and k1: "ic_consecutiveHighDrift c1 = 0"
    and f1: "ic_intervalMs c1 = ?I" "ic_onDriftWarning c1 = ic_onDriftWarning c0"
      "ic_dateNow c1 = ic_dateNow c0" "ic_onError c1 = ic_onError c0"
    by blast
  obtain c w where p: "interval_fireTicks ticks c1 w1 = (c, w)" by (metis prod.exhaust)
  from fireTicks_counter[OF h1 k1, of ticks w1] p f1 q1
  have i: "ic_consecutiveHighDrift c = highDriftRun ?I (map snd ticks)" "ic_handler c = Some h"
    "ic_intervalMs c = ?I" "ic_onDriftWarning c = ic_onDriftWarning c0"
    "ic_seq c = length ticks" "ic_dateNow c = ic_dateNow c0" "ic_onError c = ic_onError c0"
    by simp_all
  note d = fireTick_detector[OF i(2), of r d w]
  have cond: "(highDrift ?I d \<and> DRIFT_WARN_COUNT \<le> ic_consecutiveHighDrift c + 1) =
              (DRIFT_WARN_COUNT \<le> highDriftRun ?I (map snd ticks @ [d]))"
    using i(1) by (simp add: highDriftRun_snoc DRIFT_WARN_COUNT_def)
  have a: "ic_consecutiveHighDrift (fst (interval_fireTick r (Some d) c w)) =
           (if highDrift ?I d then ic_consecutiveHighDrift c + 1 else 0)"
    using d(2) i(3) by simp
  have b: "snd (interval_fireTick r (Some d) c w) =
           (case h \<lparr> ts = ic_dateNow c0 w, seq = length ticks, reason = r, drift = Some d \<rparr>
                   (case ic_onDriftWarning c0 of
                      None \<Rightarrow> w
                    | Some warn \<Rightarrow>
                        (if DRIFT_WARN_COUNT \<le> highDriftRun ?I (map snd ticks @ [d])
                         then warn d w else w)) of
              (res, w3) \<Rightarrow>
                (case res of None \<Rightarrow> w3
                 | Some e \<Rightarrow> (case ic_onError c0 of Some f \<Rightarrow> f e w3 | None \<Rightarrow> w3)))"
    unfolding d(1) i(3-7) cond ..
  have e: "DRIFT_WARN_COUNT \<le> length ticks + 1 \<and>
            (\<forall>x \<in> set (drop (length ticks + 1 - DRIFT_WARN_COUNT) (map snd ticks @ [d])).
               highDrift ?I x)"
    if "DRIFT_WARN_COUNT \<le> highDriftRun ?I (map snd ticks @ [d])"
    using highDriftRun_last[OF that] by simp
  show ?thesis using s p i(1) a b e by simp
qed

text \<open>Interval 100 and four high drifts: no warning yet; the fifth high drift, 99, is
  reported.\<close>

theorem interval_drift_warning_witness:
  "(case createIntervalClock \<lparr> opt_intervalMs = 100, opt_backpressure = Some Drop,
             opt_maxCatchUpTicks = None, opt_onDriftWarning = Some (\<lambda>d w. w @ [d]),
             opt_onError = None \<rparr> (\<lambda>w. 0) of
      Thrown e \<Rightarrow> False
    | Ok c0 \<Rightarrow>
        (\<exists>c1. interval_start (\<lambda>t w. (None, w)) c0 [] = (Ok (), c1) \<and>
           (case interval_fireTicks [(Interval, 90), (Catchup, 95), (Interval, - 85), (Interval, 100)]
                   c1 [] of
              (c, w) \<Rightarrow> w = [] \<and> ic_consecutiveHighDrift c = 4 \<and>
                snd (interval_fireTick Interval (Some 99) c w) = [99] \<and>
                ic_consecutiveHighDrift (fst (interval_fireTick Interval (Some 99) c w)) = 5)))"
proof -
  obtain c0 where c: "createIntervalClock \<lparr> opt_intervalMs = 100, opt_backpressure = Some Drop,
             opt_maxCatchUpTicks = None, opt_onDriftWarning = Some (\<lambda>d w. w @ [d]),
             opt_onError = None \<rparr> (\<lambda>w. 0) = Ok (c0 :: int list intervalClock)"
    by (simp add: createIntervalClock_def)
  then have n: "\<not> ic_running c0" and f: "ic_intervalMs c0 = 100" "ic_dateNow c0 = (\<lambda>w. 0)"
    "ic_onDriftWarning c0 = Some (\<lambda>d w. w @ [d])" "ic_onError c0 = None"
    by (auto simp: createIntervalClock_def)
  have hd: "highDrift 100 90" "highDrift 100 95" "highDrift 100 (- 85)" "highDrift 100 100"
    "highDrift 100 99"
    by (simp_all add: highDrift_def DRIFT_WARN_RATIO_def)
  have run: "highDriftRun 100 [90, 95, - 85, 100] = 4" "highDriftRun 100 [90, 95, - 85, 100, 99] = 5"
    using hd by (simp_all add: highDriftRun_def)
  from interval_drift_warning [OF n, where h = "\<lambda>t w. (None, w)" and ?w0.0 = "[]"
      and ticks = "[(Interval, 90), (Catchup, 95), (Interval, - 85), (Interval, 100)]"
      and ?w1.0 = "[]" and r = Interval and d = 99]
  obtain c1 where s: "interval_start (\<lambda>t w. (None, w)) c0 [] = (Ok (), c1)"
    and t: "(case interval_fireTicks [(Interval, 90), (Catchup, 95), (Interval, - 85), (Interval, 100)] c1 [] of
       (c, w) \<Rightarrow>
         ic_consecutiveHighDrift c = 4 \<and>
         ic_consecutiveHighDrift (fst (interval_fireTick Interval (Some 99) c w)) =
           ic_consecutiveHighDrift c + 1 \<and>
         snd (interval_fireTick Interval (Some 99) c w) = w @ [99])"
    using f hd run by (auto simp: DRIFT_WARN_COUNT_def split: prod.splits)
  have h1: "ic_handler c1 = Some (\<lambda>t w. (None, w))" "ic_onDriftWarning c1 = Some (\<lambda>d w. w @ [d])"
    "ic_intervalMs c1 = 100" "ic_consecutiveHighDrift c1 = 0"
    using interval_start_resets[OF n, of "\<lambda>t w. (None, w)" "[]"] s f by auto
  have w: "snd (interval_fireTicks [(Interval, 90), (Catchup, 95), (Interval, - 85), (Interval, 100)] c1 []) = []"
    using h1 hd
    by (simp add: interval_fireTick_def interval_noteDrift_def Let_def DRIFT_WARN_COUNT_def
          split: prod.splits)
  show ?thesis using c s t w by (auto split: prod.splits)
qed

section \<open>Signal bus: subscriptions\<close>

lemma indexOf_None: "indexOf x xs = None \<longleftrightarrow> x \<notin> set xs"
  by (induction xs) auto

lemma indexOf_splice1: "indexOf x xs = Some i \<Longrightarrow> splice1 i xs = remove1 x xs"
proof (induction xs arbitrary: i)
  case Nil
  then show ?case by simp
next
  case (Cons y ys)
  show ?case
  proof (cases "x = y")
    case True
    with Cons.prems show ?thesis by (simp add: splice1_def)
  next
    case False
    with Cons.prems obtain j where j: "indexOf x ys = Some j" "i = Suc j" by auto
    from Cons.IH[OF j(1)] j(2) False show ?thesis by (simp add: splice1_def)
  qed
qed

lemma unsubscribe_list:
  "subscribedList u (unsubscribe u b) = remove1 (subscribedHandler u) (subscribedList u b)"
proof (cases u)
  case (UnsubTyped a h)
  show ?thesis
  proof (cases "indexOf h (arrays b a)")
    case None
    then have "h \<notin> set (arrays b a)" by (simp add: indexOf_None)
    then show ?thesis using None UnsubTyped by (simp add: remove1_idem)
  next
    case (Some i)
    then show ?thesis using UnsubTyped by (simp add: indexOf_splice1)
  qed
next
  case (UnsubAny h)
  show ?thesis
  proof (cases "indexOf h (anyHandlers b)")
    case None
    then have "h \<notin> set (anyHandlers b)" by (simp add: indexOf_None)
    then show ?thesis using None UnsubAny by (simp add: remove1_idem)
  next
    case (Some i)
    then show ?thesis using UnsubAny by (simp add: indexOf_splice1)
  qed
qed

lemma unsubscribe_absent:
  "subscribedHandler u \<notin> set (subscribedList u b) \<Longrightarrow> unsubscribe u b = b"
  by (cases u) (simp_all add: indexOf_None[symmetric])

lemma count_le1_remove1:
  "count_list xs x \<le> 1 \<Longrightarrow> x \<notin> set (remove1 x xs)"
  by (induction xs) (auto simp: count_list_0_iff split: if_splits)

lemma count_1_remove1_length:
  "count_list xs x = 1 \<Longrightarrow> length (remove1 x xs) + 1 = length xs"
  by (metis One_nat_def Suc_eq_plus1 count_list_0_iff length_remove1 not_one_le_zero
      Suc_pred length_pos_if_in_set zero_neq_one)

text \<open>
  Claim C2, as the code has it. Every call of an unsubscribe closure, returned by \<^verbatim>\<open>on\<close> or
  by \<^verbatim>\<open>onAny\<close>, removes the first entry of its list that is the handler, if there is one
  (\<^verbatim>\<open>indexOf\<close> then \<^verbatim>\<open>splice\<close>); the closure keeps no record of having been called. So two
  calls remove the first two matching entries. When the handler is in the list at most
  once, the second call changes nothing, and when it is there exactly once, the two calls
  together remove exactly one registration. \<^verbatim>\<open>on\<close> and \<^verbatim>\<open>onAny\<close> append the handler to the
  list their closure holds.
\<close>

theorem unsubscribe_removes_first:
  "subscribedList u (unsubscribe u b) = remove1 (subscribedHandler u) (subscribedList u b) \<and>
   subscribedList u (unsubscribe u (unsubscribe u b)) =
     remove1 (subscribedHandler u) (remove1 (subscribedHandler u) (subscribedList u b)) \<and>
   (count_list (subscribedList u b) (subscribedHandler u) \<le> 1 \<longrightarrow>
      unsubscribe u (unsubscribe u b) = unsubscribe u b) \<and>
   (count_list (subscribedList u b) (subscribedHandler u) = 1 \<longrightarrow>
      length (subscribedList u (unsubscribe u (unsubscribe u b))) + 1 =
        length (subscribedList u b)) \<and>
   (case on t h b of
      (b1, u1) \<Rightarrow> subscribedHandler u1 = h \<and> subscribedList u1 b1 = handlersFor b1 t \<and>
        handlersFor b1 t = handlersFor b t @ [h]) \<and>
   (case onAny h b of
      (b1, u1) \<Rightarrow> subscribedHandler u1 = h \<and> subscribedList u1 b1 = anyHandlers b1 \<and>
        anyHandlers b1 = anyHandlers b @ [h])"
proof -
  let ?h = "subscribedHandler u"
  let ?xs = "subscribedList u b"
  have a: "subscribedList u (unsubscribe u b) = remove1 ?h ?xs" by (rule unsubscribe_list)
  have b2: "subscribedList u (unsubscribe u (unsubscribe u b)) = remove1 ?h (remove1 ?h ?xs)"
    by (simp add: unsubscribe_list)
  have c: "unsubscribe u (unsubscribe u b) = unsubscribe u b" if "count_list ?xs ?h \<le> 1"
    by (rule unsubscribe_absent) (simp add: a count_le1_remove1[OF that])
  have d: "length (subscribedList u (unsubscribe u (unsubscribe u b))) + 1 = length ?xs"
    if "count_list ?xs ?h = 1"
    using c that a count_1_remove1_length[OF that] by simp
  have e: "(case on t h b of
      (b1, u1) \<Rightarrow> subscribedHandler u1 = h \<and> subscribedList u1 b1 = handlersFor b1 t \<and>
        handlersFor b1 t = handlersFor b t @ [h])"
    by (cases "map_of (typeHandlers b) t") (simp_all add: on_def handlersFor_def map_add_def)
  have f: "(case onAny h b of
      (b1, u1) \<Rightarrow> subscribedHandler u1 = h \<and> subscribedList u1 b1 = anyHandlers b1 \<and>
        anyHandlers b1 = anyHandlers b @ [h])"
    by (simp add: onAny_def)
  show ?thesis using a b2 c d e f by blast
qed

text \<open>One registration: the second call of the closure changes nothing.\<close>

theorem unsubscribe_removes_first_witness:
  "handlersFor (fst (on ''x'' (7::nat)
       (createDefaultSignalBus (\<lambda>h s w. (None, w)) :: (nat, unit, nat, unit) signalBus))) ''x'' = [7] \<and>
   unsubscribe (snd (on ''x'' (7::nat) (createDefaultSignalBus (\<lambda>h s w. (None, w)) :: (nat, unit, nat, unit) signalBus)))
     (unsubscribe (snd (on ''x'' 7 (createDefaultSignalBus (\<lambda>h s w. (None, w)) :: (nat, unit, nat, unit) signalBus)))
        (fst (on ''x'' 7 (createDefaultSignalBus (\<lambda>h s w. (None, w)) :: (nat, unit, nat, unit) signalBus)))) =
   unsubscribe (snd (on ''x'' 7 (createDefaultSignalBus (\<lambda>h s w. (None, w)) :: (nat, unit, nat, unit) signalBus)))
        (fst (on ''x'' 7 (createDefaultSignalBus (\<lambda>h s w. (None, w)) :: (nat, unit, nat, unit) signalBus))) \<and>
   handlersFor (unsubscribe (snd (on ''x'' (7::nat) (createDefaultSignalBus (\<lambda>h s w. (None, w)) :: (nat, unit, nat, unit) signalBus)))
        (fst (on ''x'' 7 (createDefaultSignalBus (\<lambda>h s w. (None, w)) :: (nat, unit, nat, unit) signalBus)))) ''x'' = []"
  using unsubscribe_removes_first
    [where u = "snd (on ''x'' (7::nat) (createDefaultSignalBus (\<lambda>h s w. (None, w)) :: (nat, unit, nat, unit) signalBus))"
       and b = "fst (on ''x'' (7::nat) (createDefaultSignalBus (\<lambda>h s w. (None, w)) :: (nat, unit, nat, unit) signalBus))"
       and t = "''x''" and h = 7]
  by (simp add: on_def createDefaultSignalBus_def createSignalBus_def handlersFor_def splice1_def)

text \<open>
  Claim C2 as stated fails. The same handler is registered twice for one type (and twice
  with \<^verbatim>\<open>onAny\<close>); the closure returned by the first registration is called twice: both
  registrations are gone.
\<close>

theorem unsubscribe_twice_counterexample:
  "handlersFor (fst (on ''x'' (7::nat) (fst (on ''x'' 7
       (createDefaultSignalBus (\<lambda>h s w. (None, w)) :: (nat, unit, nat, unit) signalBus))))) ''x'' = [7, 7] \<and>
   handlersFor
     (unsubscribe (snd (on ''x'' (7::nat) (createDefaultSignalBus (\<lambda>h s w. (None, w)) :: (nat, unit, nat, unit) signalBus)))
       (unsubscribe (snd (on ''x'' (7::nat) (createDefaultSignalBus (\<lambda>h s w. (None, w)) :: (nat, unit, nat, unit) signalBus)))
          (fst (on ''x'' (7::nat) (fst (on ''x'' 7
             (createDefaultSignalBus (\<lambda>h s w. (None, w)) :: (nat, unit, nat, unit) signalBus)))))))
     ''x'' = [] \<and>
   anyHandlers
     (unsubscribe (snd (onAny (7::nat) (createDefaultSignalBus (\<lambda>h s w. (None, w)) :: (nat, unit, nat, unit) signalBus)))
       (unsubscribe (snd (onAny (7::nat) (createDefaultSignalBus (\<lambda>h s w. (None, w)) :: (nat, unit, nat, unit) signalBus)))
          (fst (onAny (7::nat) (fst (onAny 7
             (createDefaultSignalBus (\<lambda>h s w. (None, w)) :: (nat, unit, nat, unit) signalBus))))))) = []"
  by (simp add: on_def onAny_def createDefaultSignalBus_def createSignalBus_def handlersFor_def
        splice1_def)

section \<open>Signal bus: dispatch\<close>





lemma processSignal_foldr:
  "processSignal b s = foldr (\<lambda>mw chain. mw s chain) (middlewareStack b) (runHandlers b s)"
  by (simp add: processSignal_def foldr_conv_fold)


lemma runHandlers_ok: "fst (runHandlers b s st) = Ok ()"
  by (simp add: runHandlers_def)

lemma memory_transport_single: "createMemoryTransport sub s st = sub s st"
proof -
  obtain r st' where e: "sub s st = (r, st')" by (metis prod.exhaust)
  show ?thesis using e by (cases r) (simp_all add: createMemoryTransport_def)
qed

lemma around_ok:
  "nxt (st\<lparr> env := pre s (env st) \<rparr>) = (Ok u, st') \<Longrightarrow>
   around pre post s nxt st = (Ok (), st'\<lparr> env := post s (env st') \<rparr>)"
  by (simp add: around_def)


lemma around_chain:
  assumes "\<And>st. fst (T st) = Ok ()"
  shows "foldr (\<lambda>mw chain. mw s chain) (map (\<lambda>(pre, post). around pre post) ms) T st =
           (Ok (), (snd (T (st\<lparr> env := preEffects ms s (env st) \<rparr>)))
                     \<lparr> env := postEffects ms s
                                (env (snd (T (st\<lparr> env := preEffects ms s (env st) \<rparr>)))) \<rparr>)"
proof (induction ms arbitrary: st)
  case Nil
  have "T st = (Ok (), snd (T st))" using assms[of st] by (metis prod.collapse)
  then show ?case by simp
next
  case (Cons m ms)
  obtain pre post where m: "m = (pre, post)" by (metis prod.exhaust)
  let ?n = "foldr (\<lambda>mw chain. mw s chain) (map (\<lambda>(pre, post). around pre post) ms) T"
  have s: "foldr (\<lambda>mw chain. mw s chain) (map (\<lambda>(pre, post). around pre post) (m # ms)) T st =
           around pre post s ?n st"
    unfolding m by simp
  note ih = Cons.IH[of "st\<lparr> env := pre s (env st) \<rparr>"]
  show ?case unfolding s
    using around_ok[where nxt = ?n and pre = pre and post = post and s = s and st = st, OF ih]
    unfolding m by simp
qed









lemma processSignal_around:
  assumes "middlewareStack b = map (\<lambda>(pre, post). around pre post) ms"
  shows "processSignal b s st =
           (Ok (), (snd (runHandlers b s (st\<lparr> env := preEffects ms s (env st) \<rparr>)))
                     \<lparr> env := postEffects ms s
                         (env (snd (runHandlers b s (st\<lparr> env := preEffects ms s (env st) \<rparr>)))) \<rparr>)"
  unfolding processSignal_foldr assms
  by (rule around_chain) (rule runHandlers_ok)

lemma emit_default_layers:
  assumes "transport b = createMemoryTransport" and "store b = createNoopStore"
  shows "emit b s st = processSignal b s (st\<lparr> emittedCount := emittedCount st + 1 \<rparr>)"
proof -
  let ?st1 = "st\<lparr> emittedCount := emittedCount st + 1 \<rparr>"
  obtain r st2 where p: "processSignal b s ?st1 = (r, st2)" by (metis prod.exhaust)
  have "st2\<lparr> env := env st2 \<rparr> = st2" by simp
  then show ?thesis
    using p by (cases r) (simp_all add: emit_def assms createNoopStore_def memory_transport_single Let_def)
qed




lemma processSignal_Cons:
  assumes "middlewareStack b = m1 # rest"
  shows "processSignal b s = m1 s (foldr (\<lambda>mw chain. mw s chain) rest (runHandlers b s))"
  by (simp add: processSignal_foldr assms)

text \<open>
  Claim C5. With the middleware \<open>M1 = around pre1 post1\<close> and \<open>M2 = around pre2 post2\<close>
  registered in that order, dispatch runs \<open>pre1\<close>, then \<open>pre2\<close>, then the handlers, then
  \<open>post2\<close>, then \<open>post1\<close>. When the first middleware returns on this signal without calling
  \<^verbatim>\<open>next\<close>, dispatch resolves with nothing but that middleware's own effect: no counter
  moves and neither the rest of the chain nor any handler touches the environment; with
  the default transport and store \<^verbatim>\<open>emit\<close> resolves, having counted the signal as emitted.
  With the default transport and store, \<^verbatim>\<open>emit\<close> is the dispatch after the count.
\<close>

theorem middleware_onion:
  "(middlewareStack b = [around pre1 post1, around pre2 post2] \<longrightarrow>
      processSignal b s st =
        (Ok (), (snd (runHandlers b s (st\<lparr> env := pre2 s (pre1 s (env st)) \<rparr>)))
                  \<lparr> env := post1 s (post2 s
                      (env (snd (runHandlers b s (st\<lparr> env := pre2 s (pre1 s (env st)) \<rparr>))))) \<rparr>)) \<and>
   (middlewareStack b = m1 # rest \<and> (\<forall>nxt. m1 s nxt = skipping eff s nxt) \<longrightarrow>
      processSignal b s st = (Ok (), st\<lparr> env := eff s (env st) \<rparr>) \<and>
      (transport b = createMemoryTransport \<and> store b = createNoopStore \<longrightarrow>
         emit b s st =
           (Ok (), st\<lparr> emittedCount := emittedCount st + 1, env := eff s (env st) \<rparr>))) \<and>
   (transport b = createMemoryTransport \<and> store b = createNoopStore \<longrightarrow>
      emit b s st = processSignal b s (st\<lparr> emittedCount := emittedCount st + 1 \<rparr>))"
proof -
  have a: "processSignal b s st =
        (Ok (), (snd (runHandlers b s (st\<lparr> env := pre2 s (pre1 s (env st)) \<rparr>)))
                  \<lparr> env := post1 s (post2 s
                      (env (snd (runHandlers b s (st\<lparr> env := pre2 s (pre1 s (env st)) \<rparr>))))) \<rparr>)"
    if "middlewareStack b = [around pre1 post1, around pre2 post2]"
  proof -
    have "middlewareStack b = map (\<lambda>(pre, post). around pre post) [(pre1, post1), (pre2, post2)]"
      using that by simp
    from processSignal_around[OF this, of s st] show ?thesis by simp
  qed
  have b1: "processSignal b s st' = (Ok (), st'\<lparr> env := eff s (env st') \<rparr>)"
    if "middlewareStack b = m1 # rest" "\<forall>nxt. m1 s nxt = skipping eff s nxt" for st'
    using that by (simp add: processSignal_Cons skipping_def)
  have c: "emit b s st = processSignal b s (st\<lparr> emittedCount := emittedCount st + 1 \<rparr>)"
    if "transport b = createMemoryTransport" "store b = createNoopStore"
    using emit_default_layers[OF that] .
  have b2: "emit b s st = (Ok (), st\<lparr> emittedCount := emittedCount st + 1, env := eff s (env st) \<rparr>)"
    if "middlewareStack b = m1 # rest" "\<forall>nxt. m1 s nxt = skipping eff s nxt"
      "transport b = createMemoryTransport" "store b = createNoopStore"
    using c[OF that(3,4)] b1[OF that(1,2)] by simp
  show ?thesis using a b1 b2 c by blast
qed

text \<open>The order test of the bus test suite, and the same bus with a first middleware that
  does not call \<^verbatim>\<open>next\<close>.\<close>

theorem middleware_onion_witness:
  "emit (use (around (\<lambda>s w. w @ [''mw2-before'']) (\<lambda>s w. w @ [''mw2-after''])) (use (around (\<lambda>s w. w @ [''mw1-before'']) (\<lambda>s w. w @ [''mw1-after''])) (fst (on ''x'' (1::nat) (createDefaultSignalBus (\<lambda>h s w. (None, w @ [''handler''])))))))
        \<lparr> sig_type = ''x'', sig_ts = 1, sig_id = ''a'', sig_source = None, sig_payload = () \<rparr>
        (initialBusState 0 []) =
     (Ok (), \<lparr> emittedCount = 1, handledCount = 1, errorCount = 0, executorState = 0,
               env = [''mw1-before'', ''mw2-before'', ''handler'', ''mw2-after'', ''mw1-after''] \<rparr>) \<and>
   emit (use (around (\<lambda>s w. w @ [''mw2-before'']) (\<lambda>s w. w @ [''mw2-after''])) (use (skipping (\<lambda>s w. w @ [''mw1-only''])) (fst (on ''x'' (1::nat) (createDefaultSignalBus (\<lambda>h s w. (None, w @ [''handler''])))))))
        \<lparr> sig_type = ''x'', sig_ts = 1, sig_id = ''a'', sig_source = None, sig_payload = () \<rparr>
        (initialBusState 0 []) =
     (Ok (), \<lparr> emittedCount = 1, handledCount = 0, errorCount = 0, executorState = 0,
               env = [''mw1-only''] \<rparr>)"
  using middleware_onion
    [where b = "(use (around (\<lambda>s w. w @ [''mw2-before'']) (\<lambda>s w. w @ [''mw2-after''])) (use (around (\<lambda>s w. w @ [''mw1-before'']) (\<lambda>s w. w @ [''mw1-after''])) (fst (on ''x'' (1::nat) (createDefaultSignalBus (\<lambda>h s w. (None, w @ [''handler''])))))))"
       and ?pre1.0 = "\<lambda>s w. w @ [''mw1-before'']" and ?post1.0 = "\<lambda>s w. w @ [''mw1-after'']"
       and ?pre2.0 = "\<lambda>s w. w @ [''mw2-before'']" and ?post2.0 = "\<lambda>s w. w @ [''mw2-after'']"
       and s = "\<lparr> sig_type = ''x'', sig_ts = 1, sig_id = ''a'', sig_source = None, sig_payload = () \<rparr>"
       and st = "\<lparr> emittedCount = 1, handledCount = 0, errorCount = 0, executorState = 0, env = [] \<rparr>"]
    middleware_onion
    [where b = "(use (around (\<lambda>s w. w @ [''mw2-before'']) (\<lambda>s w. w @ [''mw2-after''])) (use (skipping (\<lambda>s w. w @ [''mw1-only''])) (fst (on ''x'' (1::nat) (createDefaultSignalBus (\<lambda>h s w. (None, w @ [''handler''])))))))"
       and ?m1.0 = "(skipping (\<lambda>s w. w @ [''mw1-only'']))" and rest = "[(around (\<lambda>s w. w @ [''mw2-before'']) (\<lambda>s w. w @ [''mw2-after'']))]" and eff = "\<lambda>s w. w @ [''mw1-only'']"
       and s = "\<lparr> sig_type = ''x'', sig_ts = 1, sig_id = ''a'', sig_source = None, sig_payload = () \<rparr>"
       and st = "initialBusState 0 []"]
  by (simp add: use_def on_def createDefaultSignalBus_def createSignalBus_def
        initialBusState_def handlersFor_def emit_def runHandlers_def dispatchOne_def
        sequential_execute_def createNoopStore_def memory_transport_single Let_def)




section \<open>Signal bus: replay\<close>





end
